theory Spec2Isabelle
  imports Complex_Main
begin

section \<open>Data model of \<^verbatim>\<open>finalynx/portfolio/folder.py\<close>\<close>

text \<open>
  The portfolio is a tree of nodes: \<^verbatim>\<open>Line\<close> leaves, \<^verbatim>\<open>Folder\<close> containers and
  \<^verbatim>\<open>SharedFolder\<close> containers (a subclass of \<^verbatim>\<open>Folder\<close>, so every
  \<^verbatim>\<open>isinstance(c, Folder)\<close> test of the source also accepts it).
  Python floats are modelled as exact rationals; \<^verbatim>\<open>np.inf\<close>, the default
  \<^verbatim>\<open>target_amount\<close>, is a value of its own.  Nodes are modelled by value: the
  non-owning \<^verbatim>\<open>parent\<close> back-reference (written by \<^verbatim>\<open>set_parent\<close>) is the position
  in the tree and is not stored.
\<close>

datatype error = KeyError | TypeError | ValueError | AttributeError | OutsideModel

text \<open>
  Modelled from the spec: \<^verbatim>\<open>constants.py\<close> is not under src/.  The enums
  \<^verbatim>\<open>AssetClass\<close> and \<^verbatim>\<open>AssetSubclass\<close> have an \<^verbatim>\<open>UNKNOWN\<close> sentinel (the default)
  and other, named members.
\<close>

datatype AssetClass = AssetClass_UNKNOWN | AssetClass_member string

datatype AssetSubclass = AssetSubclass_UNKNOWN | AssetSubclass_member string

text \<open>
  Modelled from the spec: \<^verbatim>\<open>line.py\<close> is not under src/.  A \<^verbatim>\<open>LinePerf\<close> is
  \<^verbatim>\<open>{expected: float, skip: bool}\<close>; \<^verbatim>\<open>LinePerf(x)\<close> has \<^verbatim>\<open>skip=False\<close>.
\<close>

record LinePerf =
  expected :: rat
  skip :: bool

definition LinePerf :: "rat \<Rightarrow> LinePerf" where
  "LinePerf x = \<lparr>expected = x, skip = False\<rparr>"

text \<open>
  Modelled from the spec: \<^verbatim>\<open>envelope.py\<close> is not under src/.  \<^verbatim>\<open>match_lines\<close> reads
  an envelope's \<^verbatim>\<open>key\<close> and \<^verbatim>\<open>name\<close>.
\<close>

record Envelope =
  envelope_name :: string
  envelope_key :: string

text \<open>
  Modelled from the spec: \<^verbatim>\<open>targets.py\<close> is not under src/.  A target is
  represented by what \<^verbatim>\<open>folder.py\<close> reads from it: whether it is an instance of
  \<^verbatim>\<open>TargetRatio\<close>, its \<^verbatim>\<open>target_ratio\<close>, whether \<^verbatim>\<open>check()\<close> returns
  \<^verbatim>\<open>Target.RESULT_NONE\<close>, and what \<^verbatim>\<open>get_ideal()\<close> returns.
\<close>

record Target =
  is_TargetRatio :: bool
  target_ratio :: rat
  check_is_RESULT_NONE :: bool
  target_get_ideal :: rat

datatype FolderDisplay = EXPANDED | COLLAPSED | LINE

fun FolderDisplay_value :: "FolderDisplay \<Rightarrow> int" where
  "FolderDisplay_value EXPANDED = 0"
| "FolderDisplay_value COLLAPSED = 1"
| "FolderDisplay_value LINE = 2"

text \<open>
  Modelled from the spec: \<^verbatim>\<open>node.py\<close> is not under src/.  The fields every
  \<^verbatim>\<open>Node\<close> has, as \<^verbatim>\<open>Folder.__init__\<close> passes them to \<^verbatim>\<open>Node.__init__\<close>.
\<close>

record Node_fields =
  name :: string
  asset_class :: AssetClass
  asset_subclass :: AssetSubclass
  target :: Target
  newline :: bool
  perf :: "LinePerf option"
  currency :: "string option"
  envelope :: "Envelope option"

text \<open>
  Modelled from the spec: \<^verbatim>\<open>line.py\<close> is not under src/.  A \<^verbatim>\<open>Line\<close> is a
  \<^verbatim>\<open>Node\<close>; what its own methods \<^verbatim>\<open>get_amount()\<close>, \<^verbatim>\<open>get_ideal()\<close>,
  \<^verbatim>\<open>get_currency()\<close> and \<^verbatim>\<open>get_perf()\<close> return is carried with it.
\<close>

record Line_fields = Node_fields +
  Line_get_amount :: rat
  Line_get_ideal :: rat
  Line_get_currency :: string
  Line_get_perf :: LinePerf

record Folder_fields = Node_fields +
  display :: FolderDisplay

datatype amount = Amount rat | Infinite

text \<open>
  Modelled from the spec: \<^verbatim>\<open>bucket.py\<close> is not under src/.  A \<^verbatim>\<open>Bucket\<close> has a
  \<^verbatim>\<open>name\<close>, its \<^verbatim>\<open>lines\<close> and the state of the pool that \<^verbatim>\<open>use_amount\<close>
  consumes.  Buckets are shared objects: a \<^verbatim>\<open>SharedFolder\<close> holds a reference, and
  the store maps references to buckets.
\<close>

record Bucket =
  bucket_name :: string
  lines :: "Line_fields list"
  amount_used :: rat

type_synonym bucket_ref = nat

type_synonym store = "bucket_ref \<Rightarrow> Bucket"

datatype Node =
    Line Line_fields
  | Folder Folder_fields "Node list"
  | SharedFolder Folder_fields "Node list" bucket_ref amount

fun children :: "Node \<Rightarrow> Node list" where
  "children (Line l) = []"
| "children (Folder a cs) = cs"
| "children (SharedFolder a cs b ta) = cs"

fun isinstance_Folder :: "Node \<Rightarrow> bool" where
  "isinstance_Folder (Line l) = False"
| "isinstance_Folder (Folder a cs) = True"
| "isinstance_Folder (SharedFolder a cs b ta) = True"

fun fields_of :: "Node \<Rightarrow> Node_fields" where
  "fields_of (Line l) = Node_fields.truncate l"
| "fields_of (Folder a cs) = Node_fields.truncate a"
| "fields_of (SharedFolder a cs b ta) = Node_fields.truncate a"

section \<open>Attribute propagation\<close>

text \<open>
  \<^verbatim>\<open>x if currency else y\<close> tests the truth value of an \<^verbatim>\<open>Optional[str]\<close>:
  \<^verbatim>\<open>None\<close> and the empty string are false.
\<close>

fun truthy_str :: "string option \<Rightarrow> bool" where
  "truthy_str None = False"
| "truthy_str (Some s) = (s \<noteq> [])"

text \<open>The assignments of \<^verbatim>\<open>set_child_attribs\<close> to the child's own fields (lines 285-291).\<close>

definition set_attribs ::
  "AssetClass \<Rightarrow> AssetSubclass \<Rightarrow> LinePerf option \<Rightarrow> string option \<Rightarrow> Envelope option
    \<Rightarrow> 'a Node_fields_scheme \<Rightarrow> 'a Node_fields_scheme" where
  "set_attribs ac asc pf cur env c =
    (let c1 = c\<lparr>asset_class := (if asset_class c = AssetClass_UNKNOWN then ac else asset_class c)\<rparr>;
         c2 = c1\<lparr>asset_subclass :=
                (if asset_subclass c1 = AssetSubclass_UNKNOWN then asc else asset_subclass c1)\<rparr>;
         c3 = c2\<lparr>currency := (if truthy_str cur then cur else currency c2)\<rparr>;
         c4 = c3\<lparr>envelope := (case env of Some e \<Rightarrow> Some e | None \<Rightarrow> envelope c3)\<rparr>
     in case pf of
          None \<Rightarrow> c4
        | Some p \<Rightarrow>
            (case perf c4 of
               None \<Rightarrow> c4\<lparr>perf := Some p\<rparr>
             | Some q \<Rightarrow> if expected q = 0 then c4\<lparr>perf := Some p\<rparr> else c4))"

text \<open>
  \<^verbatim>\<open>Folder.set_child_attribs\<close> (lines 273-295); \<^verbatim>\<open>self\<close> is not read.  When the
  child is a folder, its children get the same incoming values.
\<close>

fun set_child_attribs ::
  "Node \<Rightarrow> AssetClass \<Rightarrow> AssetSubclass \<Rightarrow> LinePerf option \<Rightarrow> string option \<Rightarrow> Envelope option
    \<Rightarrow> Node" where
  "set_child_attribs (Line l) ac asc pf cur env = Line (set_attribs ac asc pf cur env l)"
| "set_child_attribs (Folder a cs) ac asc pf cur env =
     Folder (set_attribs ac asc pf cur env a)
       (map (\<lambda>c. set_child_attribs c ac asc pf cur env) cs)"
| "set_child_attribs (SharedFolder a cs b ta) ac asc pf cur env =
     SharedFolder (set_attribs ac asc pf cur env a)
       (map (\<lambda>c. set_child_attribs c ac asc pf cur env) cs) b ta"


text \<open>
  \<^verbatim>\<open>Folder.add_child\<close> (lines 102-109) on a folder with fields \<open>a\<close> and children
  \<open>cs\<close>: the new \<^verbatim>\<open>self.children\<close>.
\<close>

definition add_child :: "Folder_fields \<Rightarrow> Node list \<Rightarrow> Node \<Rightarrow> Node list" where
  "add_child a cs child =
     cs @ [set_child_attribs child (asset_class a) (asset_subclass a) (perf a) (currency a)
             (envelope a)]"

section \<open>Aggregation\<close>

fun get_amount :: "Node \<Rightarrow> rat" where
  "get_amount (Line l) = Line_get_amount l"
| "get_amount (Folder a cs) = (if cs = [] then 0 else sum_list (map get_amount cs))"
| "get_amount (SharedFolder a cs b ta) = (if cs = [] then 0 else sum_list (map get_amount cs))"

text \<open>Lines 120-123 on the list of the children's currencies.\<close>

definition common_currency :: "string list \<Rightarrow> string" where
  "common_currency currencies =
     (case currencies of
        [] \<Rightarrow> ''#''
      | c0 # _ \<Rightarrow> if count_list currencies c0 = length currencies then c0 else ''#'')"

fun get_currency :: "Node \<Rightarrow> string" where
  "get_currency (Line l) = Line_get_currency l"
| "get_currency (Folder a cs) = common_currency (map get_currency cs)"
| "get_currency (SharedFolder a cs b ta) = common_currency (map get_currency cs)"

fun get_ideal :: "Node \<Rightarrow> rat" where
  "get_ideal (Line l) = Line_get_ideal l"
| "get_ideal (Folder a cs) =
     (if \<not> check_is_RESULT_NONE (target a) then target_get_ideal (target a)
      else sum_list (map get_ideal cs))"
| "get_ideal (SharedFolder a cs b ta) =
     (if \<not> check_is_RESULT_NONE (target a) then target_get_ideal (target a)
      else sum_list (map get_ideal cs))"

text \<open>
  \<^verbatim>\<open>isinstance(c, Line) and c.perf.skip\<close> (line 138): reading \<^verbatim>\<open>skip\<close> from a
  \<^verbatim>\<open>perf\<close> that is \<^verbatim>\<open>None\<close> raises \<^verbatim>\<open>AttributeError\<close>.
\<close>

fun Line_and_perf_skip :: "Node \<Rightarrow> error + bool" where
  "Line_and_perf_skip (Line l) =
     (case perf l of None \<Rightarrow> Inl AttributeError | Some p \<Rightarrow> Inr (skip p))"
| "Line_and_perf_skip (Folder a cs) = Inr False"
| "Line_and_perf_skip (SharedFolder a cs b ta) = Inr False"

text \<open>The list comprehension of line 138.\<close>

fun candidates :: "Node list \<Rightarrow> error + Node list" where
  "candidates [] = Inr []"
| "candidates (c # cs) =
     (case Line_and_perf_skip c of
        Inl e \<Rightarrow> Inl e
      | Inr b \<Rightarrow>
          (case candidates cs of
             Inl e \<Rightarrow> Inl e
           | Inr r \<Rightarrow> Inr (if b then r else c # r)))"

text \<open>Lines 141-156, on the candidates and their performances.\<close>

definition weighted_perf :: "bool \<Rightarrow> Node list \<Rightarrow> LinePerf list \<Rightarrow> LinePerf" where
  "weighted_perf ideal cands perfs =
     (if cands = [] \<or> list_all skip perfs then \<lparr>expected = 0, skip = True\<rparr>
      else
        let amounts = map (\<lambda>c. if ideal then get_ideal c else get_amount c) cands;
            total_amount = sum_list amounts;
            weights =
              (if total_amount = 0
               then replicate (length amounts) (1 / of_nat (length amounts))
               else map (\<lambda>e. e / total_amount) amounts)
        in LinePerf (sum_list (map (\<lambda>(w, p). w * expected p) (zip weights perfs))))"

lemma candidates_size:
  "candidates cs = Inr r \<Longrightarrow> size_list size r \<le> size_list size cs"
proof (induction cs arbitrary: r)
  case Nil
  then show ?case by simp
next
  case (Cons c cs)
  then show ?case
    by (auto split: sum.splits if_splits)
qed

function get_perf :: "bool \<Rightarrow> Node \<Rightarrow> error + LinePerf"
  and get_perfs :: "bool \<Rightarrow> Node list \<Rightarrow> error + LinePerf list" where
  "get_perf ideal (Line l) = Inr (Line_get_perf l)"
| "get_perf ideal (Folder a cs) =
     (case candidates cs of
        Inl e \<Rightarrow> Inl e
      | Inr cands \<Rightarrow>
          (case get_perfs ideal cands of
             Inl e \<Rightarrow> Inl e
           | Inr perfs \<Rightarrow> Inr (weighted_perf ideal cands perfs)))"
| "get_perf ideal (SharedFolder a cs b ta) =
     (case candidates cs of
        Inl e \<Rightarrow> Inl e
      | Inr cands \<Rightarrow>
          (case get_perfs ideal cands of
             Inl e \<Rightarrow> Inl e
           | Inr perfs \<Rightarrow> Inr (weighted_perf ideal cands perfs)))"
| "get_perfs ideal [] = Inr []"
| "get_perfs ideal (c # cs) =
     (case get_perf ideal c of
        Inl e \<Rightarrow> Inl e
      | Inr p \<Rightarrow>
          (case get_perfs ideal cs of
             Inl e \<Rightarrow> Inl e
           | Inr ps \<Rightarrow> Inr (p # ps)))"
  by pat_completeness auto
termination
proof (relation "measure (\<lambda>x. case x of Inl (i, n) \<Rightarrow> 2 * size n | Inr (i, ns) \<Rightarrow> 2 * size_list size ns + 1)")
  show "wf (measure (\<lambda>x. case x of Inl (i, n) \<Rightarrow> 2 * size n | Inr (i, ns) \<Rightarrow> 2 * size_list size ns + 1))"
    by simp
qed (auto dest: candidates_size)


section \<open>Values of the plain nested-map form\<close>

text \<open>
  What \<^verbatim>\<open>to_dict\<close> builds and \<^verbatim>\<open>from_dict\<close> reads: Python values.  A
  \<^verbatim>\<open>dict\<close> with string keys is an association list, read with \<open>map_of\<close>.
\<close>

datatype py =
    PNone
  | PBool bool
  | PInt int
  | PFloat amount
  | PStr string
  | PList "py list"
  | PDict "(string \<times> py) list"

text \<open>\<^verbatim>\<open>d[k]\<close> for a string \<open>k\<close>: only a \<^verbatim>\<open>dict\<close> can be subscripted with a string.\<close>

fun py_get :: "py \<Rightarrow> string \<Rightarrow> error + py" where
  "py_get (PDict kvs) k = (case map_of kvs k of None \<Rightarrow> Inl KeyError | Some v \<Rightarrow> Inr v)"
| "py_get PNone k = Inl TypeError"
| "py_get (PBool b) k = Inl TypeError"
| "py_get (PInt i) k = Inl TypeError"
| "py_get (PFloat x) k = Inl TypeError"
| "py_get (PStr s) k = Inl TypeError"
| "py_get (PList xs) k = Inl TypeError"


text \<open>
  \<^verbatim>\<open>FolderDisplay(v)\<close>: the member whose value equals \<open>v\<close> (Python's \<^verbatim>\<open>True == 1\<close>
  and \<^verbatim>\<open>1.0 == 1\<close> hold), \<^verbatim>\<open>ValueError\<close> when there is none.
\<close>

fun py_number :: "py \<Rightarrow> rat option" where
  "py_number (PBool b) = Some (if b then 1 else 0)"
| "py_number (PInt i) = Some (of_int i)"
| "py_number (PFloat (Amount x)) = Some x"
| "py_number v = None"

definition FolderDisplay_of :: "py \<Rightarrow> error + FolderDisplay" where
  "FolderDisplay_of v =
     (case py_number v of
        None \<Rightarrow> Inl ValueError
      | Some x \<Rightarrow>
          if x = 0 then Inr EXPANDED
          else if x = 1 then Inr COLLAPSED
          else if x = 2 then Inr LINE
          else Inl ValueError)"

text \<open>
  \<^verbatim>\<open>from_dict\<close> passes \<^verbatim>\<open>dict["name"]\<close> and \<^verbatim>\<open>dict["target_amount"]\<close> on unchecked.
  The fields of the model have the declared types (\<^verbatim>\<open>name: str\<close>,
  \<^verbatim>\<open>target_amount: float\<close>); any other value is \<open>OutsideModel\<close>.
\<close>

fun py_str :: "py \<Rightarrow> error + string" where
  "py_str (PStr s) = Inr s"
| "py_str v = Inl OutsideModel"



section \<open>Processing pass\<close>

text \<open>
  Modelled from the spec: \<^verbatim>\<open>line.py\<close>, \<^verbatim>\<open>targets.py\<close> and \<^verbatim>\<open>bucket.py\<close> are not
  under src/.  \<^verbatim>\<open>Line.process()\<close>, \<^verbatim>\<open>Bucket.use_amount(amount)\<close>,
  \<^verbatim>\<open>Line.to_dict()\<close>, \<^verbatim>\<open>Line.from_dict(dict, envelopes)\<close>, \<^verbatim>\<open>Target.to_dict()\<close>
  and \<^verbatim>\<open>Target.from_dict(dict)\<close> are parameters of the model.  \<open>Line_process\<close>
  returns the line as processing leaves it, \<open>Bucket_use_amount\<close> the allocated lines
  together with the bucket as the call leaves it.
\<close>

record collaborators =
  Line_process :: "Line_fields \<Rightarrow> Line_fields"
  Bucket_use_amount :: "Bucket \<Rightarrow> amount \<Rightarrow> Line_fields list \<times> Bucket"
  Line_to_dict :: "Line_fields \<Rightarrow> py"
  Line_from_dict :: "py \<Rightarrow> (string \<Rightarrow> Envelope option) \<Rightarrow> error + Line_fields"
  Target_to_dict :: "Target \<Rightarrow> py"
  Target_from_dict :: "py \<Rightarrow> error + Target"

text \<open>
  Lines 381-382: \<^verbatim>\<open>if self.children: self.children[-1].newline = self.newline\<close>, on the
  lines that \<^verbatim>\<open>use_amount\<close> returned (distinct objects).
\<close>

definition set_last_newline :: "bool \<Rightarrow> Line_fields list \<Rightarrow> Line_fields list" where
  "set_last_newline nl ls =
     (if ls = [] then ls else ls[length ls - 1 := (ls ! (length ls - 1))\<lparr>newline := nl\<rparr>])"

text \<open>Line 245: the condition under which the warning of line 246 is logged.\<close>

definition ratio_warning :: "string \<Rightarrow> rat \<Rightarrow> string list" where
  "ratio_warning nm total_ratio = (if total_ratio \<noteq> 0 \<and> total_ratio \<noteq> 100 then [nm] else [])"

text \<open>
  \<^verbatim>\<open>Folder.process\<close> (lines 232-246) and \<^verbatim>\<open>SharedFolder.process\<close> (lines 374-382).
  A call returns the node as mutated, the names of the folders whose warning was logged
  (in the order of logging) and the store of buckets.  \<open>process_children\<close> is the loop of
  lines 239-243 with its accumulator \<^verbatim>\<open>total_ratio\<close>.
\<close>

fun process :: "collaborators \<Rightarrow> store \<Rightarrow> Node \<Rightarrow> Node \<times> string list \<times> store"
  and process_children ::
    "collaborators \<Rightarrow> store \<Rightarrow> rat \<Rightarrow> Node list \<Rightarrow> Node list \<times> rat \<times> string list \<times> store" where
  "process X st (Line l) = (Line (Line_process X l), [], st)"
| "process X st (Folder a cs) =
     (case process_children X st 0 cs of
        (cs', total_ratio, w, st') \<Rightarrow> (Folder a cs', w @ ratio_warning (name a) total_ratio, st'))"
| "process X st (SharedFolder a cs b ta) =
     (case process_children X st 0 cs of
        (cs', total_ratio, w, st') \<Rightarrow>
          (case Bucket_use_amount X (st' b) ta of
             (ls, bk) \<Rightarrow>
               (SharedFolder a (map Line (set_last_newline (newline a) ls)) b ta,
                w @ ratio_warning (name a) total_ratio,
                st'(b := bk))))"
| "process_children X st total_ratio [] = ([], total_ratio, [], st)"
| "process_children X st total_ratio (child # cs) =
     (case process X st child of
        (child', w, st1) \<Rightarrow>
          (case process_children X st1
                  (if is_TargetRatio (target (fields_of child'))
                   then total_ratio + target_ratio (target (fields_of child'))
                   else total_ratio) cs of
             (cs', total_ratio', w', st2) \<Rightarrow> (child' # cs', total_ratio', w @ w', st2)))"

section \<open>Line matching\<close>

text \<open>
  Modelled from the spec: \<^verbatim>\<open>fetch/fetch_line.py\<close> is not under src/.  A \<^verbatim>\<open>FetchLine\<close>
  has an \<^verbatim>\<open>account\<close>, the line that \<^verbatim>\<open>generate_line()\<close> builds and the predicate
  \<^verbatim>\<open>matches_line(line)\<close>.
\<close>

record FetchLine =
  account :: string
  generate_line :: Line_fields
  matches_line :: "Line_fields \<Rightarrow> bool"

text \<open>Line 260: \<^verbatim>\<open>self.envelope and fetch_line.account in [key, name]\<close>.\<close>

definition envelope_matches :: "FetchLine \<Rightarrow> Envelope option \<Rightarrow> bool" where
  "envelope_matches fetch_line env =
     (case env of
        None \<Rightarrow> False
      | Some e \<Rightarrow> account fetch_line = envelope_key e \<or> account fetch_line = envelope_name e)"

text \<open>
  The object \<^verbatim>\<open>generated_line\<close> after \<^verbatim>\<open>self.add_child(generated_line)\<close> (line 262)
  has set the folder's attributes on it.
\<close>

definition added_line :: "Folder_fields \<Rightarrow> Line_fields \<Rightarrow> Line_fields" where
  "added_line a l =
     set_attribs (asset_class a) (asset_subclass a) (perf a) (currency a) (envelope a) l"

text \<open>
  \<^verbatim>\<open>Folder.match_lines\<close> (lines 248-271) on a folder with fields \<open>a\<close> and children
  \<open>cs\<close>: the list \<^verbatim>\<open>matched\<close> and the new \<^verbatim>\<open>self.children\<close>.  \<open>match_children\<close>
  is the loop of lines 266-270.
\<close>

function match_lines :: "FetchLine \<Rightarrow> Folder_fields \<Rightarrow> Node list \<Rightarrow> Line_fields list \<times> Node list"
  and match_children :: "FetchLine \<Rightarrow> Node list \<Rightarrow> Line_fields list \<times> Node list" where
  "match_lines fetch_line a cs =
     (if envelope_matches fetch_line (envelope a)
      then
        (case match_children fetch_line (add_child a cs (Line (generate_line fetch_line))) of
           (m, cs') \<Rightarrow> (added_line a (generate_line fetch_line) # m, cs'))
      else match_children fetch_line cs)"
| "match_children fetch_line [] = ([], [])"
| "match_children fetch_line (Line l # rest) =
     (case match_children fetch_line rest of
        (m, rest') \<Rightarrow> ((if matches_line fetch_line l then [l] else []) @ m, Line l # rest'))"
| "match_children fetch_line (Folder a cs # rest) =
     (case match_lines fetch_line a cs of
        (m1, cs') \<Rightarrow>
          (case match_children fetch_line rest of
             (m, rest') \<Rightarrow> (m1 @ m, Folder a cs' # rest')))"
| "match_children fetch_line (SharedFolder a cs b ta # rest) =
     (case match_lines fetch_line a cs of
        (m1, cs') \<Rightarrow>
          (case match_children fetch_line rest of
             (m, rest') \<Rightarrow> (m1 @ m, SharedFolder a cs' b ta # rest')))"
  by pat_completeness auto
termination
proof (relation "measure (\<lambda>x. case x of Inl (f, a, cs) \<Rightarrow> 2 * size_list size cs + 3
                                     | Inr (f, cs) \<Rightarrow> 2 * size_list size cs)")
  show "wf (measure (\<lambda>x. case x of Inl (f, a, cs) \<Rightarrow> 2 * size_list size cs + 3
                                   | Inr (f, cs) \<Rightarrow> 2 * size_list size cs))"
    by simp
qed (auto simp: add_child_def)

section \<open>Serialization\<close>



text \<open>
  Sequencing of calls that may raise: the first error ends the evaluation.
\<close>

definition and_then :: "error + 'a \<Rightarrow> ('a \<Rightarrow> error + 'b) \<Rightarrow> error + 'b" where
  "and_then r f = (case r of Inl e \<Rightarrow> Inl e | Inr v \<Rightarrow> f v)"

lemma and_then_cong [fundef_cong]:
  "r = r' \<Longrightarrow> (\<And>v. r' = Inr v \<Longrightarrow> f v = f' v) \<Longrightarrow> and_then r f = and_then r' f'"
  by (simp add: and_then_def split: sum.splits)







section \<open>The words of the specification\<close>

subsection \<open>Attribute propagation\<close>


subsection \<open>Processing a folder\<close>





subsection \<open>The performance of a folder\<close>

text \<open>
  The words of the specification (section 4.1): the candidates of a folder, the lines of
  a tree having a performance, the weight basis and the weight of a candidate.
\<close>

fun skipped_Line :: "Node \<Rightarrow> bool" where
  "skipped_Line (Line l) = (case perf l of None \<Rightarrow> False | Some p \<Rightarrow> skip p)"
| "skipped_Line (Folder a cs) = False"
| "skipped_Line (SharedFolder a cs b ta) = False"

definition candidates_of :: "Node \<Rightarrow> Node list" where
  "candidates_of n = filter (\<lambda>c. \<not> skipped_Line c) (children n)"

fun has_perfs :: "Node \<Rightarrow> bool" where
  "has_perfs (Line l) = (perf l \<noteq> None)"
| "has_perfs (Folder a cs) = list_all has_perfs cs"
| "has_perfs (SharedFolder a cs b ta) = list_all has_perfs cs"

definition weight_basis :: "bool \<Rightarrow> Node \<Rightarrow> rat" where
  "weight_basis ideal c = (if ideal then get_ideal c else get_amount c)"

definition candidate_weight :: "bool \<Rightarrow> Node list \<Rightarrow> nat \<Rightarrow> rat" where
  "candidate_weight ideal cands i =
     (if sum_list (map (weight_basis ideal) cands) = 0 then 1 / of_nat (length cands)
      else weight_basis ideal (cands ! i) / sum_list (map (weight_basis ideal) cands))"

subsection \<open>Round trip through the plain nested-map form\<close>






section \<open>Sample values\<close>

text \<open>Concrete nodes on which the theorems below are instantiated.\<close>

definition sample_target :: Target where
  "sample_target =
     \<lparr>is_TargetRatio = False, target_ratio = 0, check_is_RESULT_NONE = True, target_get_ideal = 0\<rparr>"

definition sample_line :: "string \<Rightarrow> bool \<Rightarrow> string option \<Rightarrow> rat \<Rightarrow> rat \<Rightarrow> Line_fields" where
  "sample_line nm nl cur ideal_amount e =
     \<lparr>name = nm, asset_class = AssetClass_UNKNOWN, asset_subclass = AssetSubclass_UNKNOWN,
      target = sample_target, newline = nl, perf = Some (LinePerf e), currency = cur,
      envelope = None, Line_get_amount = 0, Line_get_ideal = ideal_amount,
      Line_get_currency = (case cur of None \<Rightarrow> ''EUR'' | Some c \<Rightarrow> c),
      Line_get_perf = LinePerf e\<rparr>"

definition sample_folder_fields ::
  "string \<Rightarrow> bool \<Rightarrow> string option \<Rightarrow> Envelope option \<Rightarrow> Folder_fields" where
  "sample_folder_fields nm nl cur env =
     \<lparr>name = nm, asset_class = AssetClass_member ''stock'',
      asset_subclass = AssetSubclass_UNKNOWN, target = sample_target, newline = nl, perf = None,
      currency = cur, envelope = env, display = EXPANDED\<rparr>"

text \<open>
  Collaborators for the sample values: processing leaves a line as it is, the bucket hands
  out all of its lines, a line is serialized with its name and a target with its four
  observations.
\<close>

definition sample_collaborators :: collaborators where
  "sample_collaborators =
     \<lparr>Line_process = (\<lambda>l. l),
      Bucket_use_amount = (\<lambda>bk ta. (lines bk, bk\<lparr>amount_used := 1\<rparr>)),
      Line_to_dict = (\<lambda>l. PDict [(''type'', PStr ''line''), (''name'', PStr (name l))]),
      Line_from_dict = (\<lambda>d envelopes.
        and_then (py_get d ''name'') (\<lambda>v.
        and_then (py_str v) (\<lambda>nm. Inr (sample_line nm False None 0 0)))),
      Target_to_dict = (\<lambda>t. PList [PBool (is_TargetRatio t), PFloat (Amount (target_ratio t)),
        PBool (check_is_RESULT_NONE t), PFloat (Amount (target_get_ideal t))]),
      Target_from_dict = (\<lambda>v. case v of
          PList [PBool r, PFloat (Amount x), PBool c, PFloat (Amount i)] \<Rightarrow>
            Inr \<lparr>is_TargetRatio = r, target_ratio = x, check_is_RESULT_NONE = c,
                 target_get_ideal = i\<rparr>
        | _ \<Rightarrow> Inl ValueError)\<rparr>"

definition sample_bucket :: "Line_fields list \<Rightarrow> Bucket" where
  "sample_bucket ls = \<lparr>bucket_name = ''b'', lines = ls, amount_used = 0\<rparr>"


definition sample_envelope :: Envelope where
  "sample_envelope = \<lparr>envelope_name = ''PEA'', envelope_key = ''pea''\<rparr>"

definition sample_fetch_line :: "bool \<Rightarrow> FetchLine" where
  "sample_fetch_line m =
     \<lparr>account = ''pea'', generate_line = sample_line ''fetched'' False None 0 0,
      matches_line = (\<lambda>l. m)\<rparr>"




section \<open>Attribute propagation: the per-field rules\<close>






section \<open>The currency of a folder\<close>

lemma count_list_eq_length: "count_list xs c = length xs \<longleftrightarrow> (\<forall>x\<in>set xs. x = c)"
proof (induction xs)
  case Nil
  then show ?case by simp
next
  case (Cons x xs)
  have "count_list xs c \<le> length xs" by (rule count_le_length)
  with Cons show ?case by auto
qed

lemma common_currency_if:
  "common_currency xs = (if xs \<noteq> [] \<and> (\<forall>x\<in>set xs. x = hd xs) then hd xs else ''#'')"
proof (cases xs)
  case Nil
  then show ?thesis by (simp add: common_currency_def)
next
  case (Cons c0 rest)
  have "count_list xs c0 = length xs \<longleftrightarrow> (\<forall>x\<in>set xs. x = c0)"
    by (rule count_list_eq_length)
  then show ?thesis
    unfolding common_currency_def Cons by simp
qed

lemma common_currency_eq:
  "common_currency xs = c \<longleftrightarrow>
     (xs \<noteq> [] \<and> (\<forall>x\<in>set xs. x = c)) \<or>
     (c = ''#'' \<and> (xs = [] \<or> (\<exists>x\<in>set xs. \<exists>y\<in>set xs. x \<noteq> y)))"
proof (cases "xs \<noteq> [] \<and> (\<forall>x\<in>set xs. x = hd xs)")
  case True
  then have ne: "xs \<noteq> []" and all: "\<forall>x\<in>set xs. x = hd xs"
    by auto
  have cc: "common_currency xs = hd xs"
    unfolding common_currency_if using True by simp
  have no: "\<not> (\<exists>x\<in>set xs. \<exists>y\<in>set xs. x \<noteq> y)"
    using all by metis
  have "hd xs \<in> set xs"
    using ne by simp
  then have "(\<forall>x\<in>set xs. x = c) \<longleftrightarrow> hd xs = c"
    using all by metis
  then show ?thesis
    unfolding cc using ne no by simp
next
  case False
  then have "common_currency xs = ''#''"
    unfolding common_currency_if by auto
  moreover have "\<not> (xs \<noteq> [] \<and> (\<forall>x\<in>set xs. x = c))" for c
    using False hd_in_set [of xs] by metis
  moreover have "xs = [] \<or> (\<exists>x\<in>set xs. \<exists>y\<in>set xs. x \<noteq> y)"
    using False hd_in_set [of xs] by blast
  ultimately show ?thesis by auto
qed

text \<open>
  C7: for a folder \<open>n\<close> (a \<^verbatim>\<open>Folder\<close> or a \<^verbatim>\<open>SharedFolder\<close>), \<^verbatim>\<open>get_currency()\<close>
  returns \<open>c\<close> exactly when either the folder has at least one child and every child's
  \<^verbatim>\<open>get_currency()\<close> returns \<open>c\<close>, or \<open>c\<close> is the sentinel \<^verbatim>\<open>#\<close> and the
  folder has no child or two children whose currencies differ.
\<close>

theorem get_currency_common_or_sentinel:
  assumes "isinstance_Folder n"
  shows "get_currency n = c \<longleftrightarrow>
     (children n \<noteq> [] \<and> (\<forall>ch\<in>set (children n). get_currency ch = c)) \<or>
     (c = ''#'' \<and> (children n = [] \<or>
        (\<exists>x\<in>set (children n). \<exists>y\<in>set (children n). get_currency x \<noteq> get_currency y)))"
  using assms by (cases n) (simp_all add: common_currency_eq)

theorem get_currency_common_or_sentinel_witness:
  "get_currency (Folder (sample_folder_fields ''f'' False None None)
     [Line (sample_line ''a'' False (Some ''USD'') 0 0),
      Line (sample_line ''b'' False (Some ''USD'') 0 0)]) = ''USD'' \<and>
   get_currency (Folder (sample_folder_fields ''f'' False None None)
     [Line (sample_line ''a'' False (Some ''USD'') 0 0),
      Line (sample_line ''b'' False (Some ''GBP'') 0 0)]) = ''#'' \<and>
   get_currency (Folder (sample_folder_fields ''f'' False None None) []) = ''#''"
proof -
  let ?f = "sample_folder_fields ''f'' False None None"
  let ?a = "Line (sample_line ''a'' False (Some ''USD'') 0 0)"
  let ?b = "Line (sample_line ''b'' False (Some ''USD'') 0 0)"
  let ?g = "Line (sample_line ''b'' False (Some ''GBP'') 0 0)"
  have 1: "get_currency (Folder ?f [?a, ?b]) = ''USD''"
    by (rule iffD2 [OF get_currency_common_or_sentinel]) (auto simp: sample_line_def)
  have 2: "get_currency (Folder ?f [?a, ?g]) = ''#''"
    by (rule iffD2 [OF get_currency_common_or_sentinel]) (auto simp: sample_line_def)
  have 3: "get_currency (Folder ?f []) = ''#''"
    by (rule iffD2 [OF get_currency_common_or_sentinel]) auto
  from 1 2 3 show ?thesis by blast
qed

section \<open>Processing a shared folder\<close>

lemma set_last_newline_props:
  assumes "ls \<noteq> []"
  shows "length (set_last_newline nl ls) = length ls"
    and "last (set_last_newline nl ls) = (last ls)\<lparr>newline := nl\<rparr>"
    and "\<forall>i < length ls - 1. set_last_newline nl ls ! i = ls ! i"
  using assms by (simp_all add: set_last_newline_def last_conv_nth)

text \<open>
  C9: when \<^verbatim>\<open>bucket.use_amount(target_amount)\<close>, called on the bucket as the processing
  of the previous children left it, returns no line, \<^verbatim>\<open>SharedFolder.process()\<close>
  returns with an empty children list and with every field of the folder, its
  \<^verbatim>\<open>newline\<close> flag among them, as it was.
\<close>

theorem process_empty_allocation:
  assumes "process_children X st 0 cs = (cs', total_ratio, w, st')"
    and "fst (Bucket_use_amount X (st' b) ta) = []"
  shows "fst (process X st (SharedFolder a cs b ta)) = SharedFolder a [] b ta"
  using assms by (auto simp: set_last_newline_def split: prod.splits)

theorem process_empty_allocation_witness:
  "fst (process (sample_collaborators\<lparr>Bucket_use_amount := (\<lambda>bk ta. ([], bk))\<rparr>)
         (\<lambda>r. sample_bucket [sample_line ''l'' True None 0 0])
         (SharedFolder (sample_folder_fields ''s'' True None None)
            [Line (sample_line ''l'' True None 0 0)] 0 Infinite))
   = SharedFolder (sample_folder_fields ''s'' True None None) [] 0 Infinite"
  by (rule process_empty_allocation
        [where cs' = "[Line (sample_line ''l'' True None 0 0)]" and total_ratio = 0
          and w = "[]" and st' = "\<lambda>r. sample_bucket [sample_line ''l'' True None 0 0]"])
     (simp_all add: sample_collaborators_def sample_line_def sample_target_def
        Node_fields.truncate_def)

text \<open>
  C1 (as stated, refuted): every child before the last would have its newline flag
  cleared.  A bucket that allocates two lines, the first with \<^verbatim>\<open>newline=True\<close>, to a
  shared folder leaves the first child with the flag set.
\<close>

theorem earlier_newline_not_cleared:
  "length (children (fst (process sample_collaborators
      (\<lambda>r. sample_bucket [sample_line ''l1'' True None 0 0, sample_line ''l2'' False None 0 0])
      (SharedFolder (sample_folder_fields ''s'' True None None) [] 0 Infinite)))) = 2 \<and>
   newline (fields_of (children (fst (process sample_collaborators
      (\<lambda>r. sample_bucket [sample_line ''l1'' True None 0 0, sample_line ''l2'' False None 0 0])
      (SharedFolder (sample_folder_fields ''s'' True None None) [] 0 Infinite))) ! 0)) = True"
  by (simp add: sample_collaborators_def sample_bucket_def set_last_newline_def sample_line_def
      sample_folder_fields_def Node_fields.truncate_def)

text \<open>
  C1 (amended): when \<^verbatim>\<open>bucket.use_amount(target_amount)\<close> returns the non-empty
  sequence \<open>ls\<close>, the children of the shared folder after \<^verbatim>\<open>process()\<close> are these
  lines in order; the last one has its newline flag set to the folder's own, and every
  earlier one is as the bucket returned it (its flag is neither set nor cleared).  The
  folder's fields are unchanged.
\<close>

theorem process_moves_newline_to_last:
  assumes "process_children X st 0 cs = (cs', total_ratio, w, st')"
    and "fst (Bucket_use_amount X (st' b) ta) = ls"
    and "ls \<noteq> []"
  shows "\<exists>new. fst (process X st (SharedFolder a cs b ta)) = SharedFolder a new b ta \<and>
     length new = length ls \<and>
     last new = Line ((last ls)\<lparr>newline := newline a\<rparr>) \<and>
     (\<forall>i < length ls - 1. new ! i = Line (ls ! i))"
proof -
  let ?ls' = "set_last_newline (newline a) ls"
  have result: "fst (process X st (SharedFolder a cs b ta)) = SharedFolder a (map Line ?ls') b ta"
    using assms(1,2) by (auto split: prod.splits)
  have len: "length (map Line ?ls') = length ls"
    using assms(3) by (simp add: set_last_newline_props)
  then have "?ls' \<noteq> []"
    using assms(3) by auto
  then have "last (map Line ?ls') = Line (last ?ls')"
    by (simp add: last_map)
  then have lst: "last (map Line ?ls') = Line ((last ls)\<lparr>newline := newline a\<rparr>)"
    using assms(3) by (simp add: set_last_newline_props)
  have earlier: "\<forall>i < length ls - 1. map Line ?ls' ! i = Line (ls ! i)"
    using assms(3) set_last_newline_props [of ls "newline a"] by simp
  from result len lst earlier show ?thesis by blast
qed

theorem process_moves_newline_to_last_witness:
  "\<exists>new. fst (process sample_collaborators
      (\<lambda>r. sample_bucket [sample_line ''l1'' False None 0 0, sample_line ''l2'' False None 0 0])
      (SharedFolder (sample_folder_fields ''s'' True None None) [] 0 Infinite))
     = SharedFolder (sample_folder_fields ''s'' True None None) new 0 Infinite \<and>
   length new = 2 \<and>
   last new = Line (sample_line ''l2'' True None 0 0) \<and>
   new ! 0 = Line (sample_line ''l1'' False None 0 0)"
  using process_moves_newline_to_last
    [where X = sample_collaborators and cs = "[]" and cs' = "[]" and total_ratio = 0 and w = "[]"
      and st = "\<lambda>r. sample_bucket [sample_line ''l1'' False None 0 0,
                   sample_line ''l2'' False None 0 0]"
      and st' = "\<lambda>r. sample_bucket [sample_line ''l1'' False None 0 0,
                   sample_line ''l2'' False None 0 0]"
      and b = 0 and ta = Infinite
      and ls = "[sample_line ''l1'' False None 0 0, sample_line ''l2'' False None 0 0]"
      and a = "sample_folder_fields ''s'' True None None"]
  by (simp add: sample_collaborators_def sample_bucket_def sample_line_def
      sample_folder_fields_def)

section \<open>Processing a folder\<close>






section \<open>The performance of a folder\<close>

lemma candidates_filter:
  "list_all has_perfs cs \<Longrightarrow> candidates cs = Inr (filter (\<lambda>c. \<not> skipped_Line c) cs)"
proof (induction cs)
  case Nil
  then show ?case by simp
next
  case (Cons c cs)
  then show ?case by (cases c) auto
qed

lemma get_perfs_Cons:
  "get_perfs ideal (c # cs) = Inr ps \<longleftrightarrow>
     (\<exists>p ps'. ps = p # ps' \<and> get_perf ideal c = Inr p \<and> get_perfs ideal cs = Inr ps')"
  by (auto split: sum.splits)

lemma get_perfs_iff:
  "get_perfs ideal cs = Inr ps \<longleftrightarrow> list_all2 (\<lambda>c p. get_perf ideal c = Inr p) cs ps"
proof (induction cs arbitrary: ps)
  case Nil
  then show ?case by auto
next
  case (Cons c cs)
  show ?case
    unfolding get_perfs_Cons list_all2_Cons1 Cons.IH by blast
qed

lemma list_all_results:
  "list_all2 (\<lambda>c p. f c = Inr p) cs ps \<Longrightarrow>
     list_all P ps \<longleftrightarrow> (\<forall>c\<in>set cs. \<exists>p. f c = Inr p \<and> P p)"
  by (induction rule: list_all2_induct) auto

lemma get_perf_folder:
  assumes "isinstance_Folder n" and "has_perfs n"
  shows "get_perf ideal n =
     (case get_perfs ideal (candidates_of n) of
        Inl e \<Rightarrow> Inl e
      | Inr ps \<Rightarrow> Inr (weighted_perf ideal (candidates_of n) ps))"
  using assms by (cases n) (auto simp: candidates_filter candidates_of_def split: sum.splits)

lemma get_perf_returns:
  "has_perfs n \<Longrightarrow> \<exists>r. get_perf ideal n = Inr r"
  "list_all has_perfs ns \<Longrightarrow> \<exists>rs. get_perfs ideal ns = Inr rs"
proof (induction ideal n and ideal ns rule: get_perf_get_perfs.induct)
  case (1 ideal l)
  then show ?case by simp
next
  case (2 ideal a cs)
  from 2(2) have c: "candidates cs = Inr (filter (\<lambda>c. \<not> skipped_Line c) cs)"
    by (simp add: candidates_filter)
  from 2(2) have "list_all has_perfs (filter (\<lambda>c. \<not> skipped_Line c) cs)"
    by (simp add: list_all_iff)
  with 2(1) [OF c] obtain rs where "get_perfs ideal (filter (\<lambda>c. \<not> skipped_Line c) cs) = Inr rs"
    by blast
  with c show ?case by simp
next
  case (3 ideal a cs b ta)
  from 3(2) have c: "candidates cs = Inr (filter (\<lambda>c. \<not> skipped_Line c) cs)"
    by (simp add: candidates_filter)
  from 3(2) have "list_all has_perfs (filter (\<lambda>c. \<not> skipped_Line c) cs)"
    by (simp add: list_all_iff)
  with 3(1) [OF c] obtain rs where "get_perfs ideal (filter (\<lambda>c. \<not> skipped_Line c) cs) = Inr rs"
    by blast
  with c show ?case by simp
next
  case (4 ideal)
  then show ?case by simp
next
  case (5 ideal c cs)
  then show ?case by (auto split: sum.splits)
qed

lemma weighted_perf_skip:
  "weighted_perf ideal cands ps = \<lparr>expected = 0, skip = True\<rparr> \<longleftrightarrow> cands = [] \<or> list_all skip ps"
  by (simp add: weighted_perf_def LinePerf_def Let_def)

text \<open>
  C4: in a folder all of whose lines have a \<^verbatim>\<open>perf\<close> (reading \<^verbatim>\<open>skip\<close> from a
  missing one raises), \<^verbatim>\<open>get_perf\<close> returns; it returns
  \<^verbatim>\<open>{expected: 0, skip: true}\<close> exactly when the candidate list (the children that are
  not lines marked skip) is empty or every candidate's own \<^verbatim>\<open>get_perf\<close> returns a
  performance marked skip.  In particular a folder without children returns it.
\<close>

theorem get_perf_skip_iff:
  assumes "isinstance_Folder n" and "has_perfs n"
  shows "(\<exists>r. get_perf ideal n = Inr r) \<and>
    (get_perf ideal n = Inr \<lparr>expected = 0, skip = True\<rparr> \<longleftrightarrow>
       candidates_of n = [] \<or>
       (\<forall>c\<in>set (candidates_of n). \<exists>p. get_perf ideal c = Inr p \<and> skip p)) \<and>
    (children n = [] \<longrightarrow> get_perf ideal n = Inr \<lparr>expected = 0, skip = True\<rparr>)"
proof -
  obtain r where r: "get_perf ideal n = Inr r"
    using get_perf_returns(1) [OF assms(2)] by blast
  then obtain ps where ps: "get_perfs ideal (candidates_of n) = Inr ps"
    and rw: "r = weighted_perf ideal (candidates_of n) ps"
    using get_perf_folder [OF assms, of ideal] by (auto split: sum.splits)
  from ps have l2: "list_all2 (\<lambda>c p. get_perf ideal c = Inr p) (candidates_of n) ps"
    by (simp add: get_perfs_iff)
  have "list_all skip ps \<longleftrightarrow>
      (\<forall>c\<in>set (candidates_of n). \<exists>p. get_perf ideal c = Inr p \<and> skip p)"
    using l2 by (rule list_all_results)
  then have iff: "get_perf ideal n = Inr \<lparr>expected = 0, skip = True\<rparr> \<longleftrightarrow>
       candidates_of n = [] \<or>
       (\<forall>c\<in>set (candidates_of n). \<exists>p. get_perf ideal c = Inr p \<and> skip p)"
    using r rw weighted_perf_skip [of ideal "candidates_of n" ps] by auto
  moreover have "children n = [] \<longrightarrow> candidates_of n = []"
    by (simp add: candidates_of_def)
  ultimately show ?thesis using r by blast
qed



theorem get_perf_skip_iff_witness:
  "get_perf True (Folder (sample_folder_fields ''f'' False None None)
      [Line ((sample_line ''a'' False None 0 0)\<lparr>perf := Some \<lparr>expected = 0, skip = True\<rparr>\<rparr>)])
    = Inr \<lparr>expected = 0, skip = True\<rparr> \<and>
   get_perf True (Folder (sample_folder_fields ''f'' False None None) [])
    = Inr \<lparr>expected = 0, skip = True\<rparr>"
proof -
  let ?f = "sample_folder_fields ''f'' False None None"
  let ?l = "(sample_line ''a'' False None 0 0)\<lparr>perf := Some \<lparr>expected = 0, skip = True\<rparr>\<rparr>"
  have 1: "get_perf True (Folder ?f [Line ?l]) = Inr \<lparr>expected = 0, skip = True\<rparr>"
    using get_perf_skip_iff [of "Folder ?f [Line ?l]" True]
    by (simp add: candidates_of_def sample_line_def)
  have 2: "get_perf True (Folder ?f []) = Inr \<lparr>expected = 0, skip = True\<rparr>"
    using get_perf_skip_iff [of "Folder ?f []" True]
    by (simp add: candidates_of_def)
  from 1 2 show ?thesis by (rule conjI)
qed

lemma zip_as_map: "length ws = length ps \<Longrightarrow> zip ws ps = map (\<lambda>i. (ws ! i, ps ! i)) [0..<length ps]"
  by (rule nth_equalityI) auto

lemma sum_zip_nth:
  "length ws = length ps \<Longrightarrow>
     sum_list (map (\<lambda>(w, p). w * expected p) (zip ws ps)) =
     sum_list (map (\<lambda>i. ws ! i * expected (ps ! i)) [0..<length ps])"
  by (simp add: zip_as_map comp_def)

lemma weighted_perf_sum:
  assumes "cands \<noteq> []" and "\<not> list_all skip ps" and "length ps = length cands"
  shows "weighted_perf ideal cands ps =
     \<lparr>expected = sum_list (map (\<lambda>i. candidate_weight ideal cands i * expected (ps ! i)) [0..<length cands]),
      skip = False\<rparr>"
proof -
  let ?amounts = "map (\<lambda>c. if ideal then get_ideal c else get_amount c) cands"
  let ?ws = "if sum_list ?amounts = 0
      then replicate (length ?amounts) (1 / of_nat (length ?amounts))
      else map (\<lambda>e. e / sum_list ?amounts) ?amounts"
  have am: "?amounts = map (weight_basis ideal) cands"
    by (simp add: weight_basis_def)
  have len: "length ?ws = length ps"
    using assms(3) by simp
  have nth: "?ws ! i = candidate_weight ideal cands i" if "i < length cands" for i
    using that unfolding am by (simp add: candidate_weight_def)
  have "weighted_perf ideal cands ps =
      LinePerf (sum_list (map (\<lambda>(w, p). w * expected p) (zip ?ws ps)))"
    using assms(1,2) by (simp add: weighted_perf_def Let_def)
  also have "sum_list (map (\<lambda>(w, p). w * expected p) (zip ?ws ps)) =
      sum_list (map (\<lambda>i. ?ws ! i * expected (ps ! i)) [0..<length ps])"
    using len by (rule sum_zip_nth)
  also have "\<dots> = sum_list (map (\<lambda>i. candidate_weight ideal cands i * expected (ps ! i)) [0..<length cands])"
    using assms(3) nth by (auto intro!: arg_cong [where f = sum_list])
  finally show ?thesis
    by (simp add: LinePerf_def)
qed

lemma two_equal_weights:
  assumes "length cands = 2" and "weight_basis ideal (cands ! 0) = weight_basis ideal (cands ! 1)"
  shows "candidate_weight ideal cands 0 = 1 / 2" and "candidate_weight ideal cands 1 = 1 / 2"
proof -
  obtain c1 c2 where cands: "cands = [c1, c2]"
    using assms(1) by (cases cands; cases "tl cands") auto
  with assms(2) have eq: "weight_basis ideal c1 = weight_basis ideal c2"
    by simp
  show "candidate_weight ideal cands 0 = 1 / 2" and "candidate_weight ideal cands 1 = 1 / 2"
    using eq by (simp_all add: candidate_weight_def cands)
qed

text \<open>
  C3: in a folder all of whose lines have a \<^verbatim>\<open>perf\<close>, with candidates that are not
  all reporting skip and whose performances are \<open>ps\<close>, \<^verbatim>\<open>get_perf(ideal)\<close> returns
  \<^verbatim>\<open>skip=false\<close> and, as \<^verbatim>\<open>expected\<close>, the sum over the candidates of candidate_weight times
  expected performance; the candidate_weight of a candidate is its basis (ideal amount when
  \<^verbatim>\<open>ideal\<close>, else current amount) over the total of the bases, and \<open>1/n\<close> when the
  total is zero.  Two candidates of equal ideal amount with expected performances 0.05
  and 0.15 give 0.10.
\<close>

theorem get_perf_weighted_sum:
  assumes "isinstance_Folder n" and "has_perfs n"
    and "list_all2 (\<lambda>c p. get_perf ideal c = Inr p) (candidates_of n) ps"
    and "candidates_of n \<noteq> []" and "\<not> list_all skip ps"
  shows "get_perf ideal n =
      Inr \<lparr>expected = sum_list (map (\<lambda>i. candidate_weight ideal (candidates_of n) i * expected (ps ! i))
              [0..<length (candidates_of n)]),
           skip = False\<rparr> \<and>
    (ideal \<and> length ps = 2 \<and>
     get_ideal (candidates_of n ! 0) = get_ideal (candidates_of n ! 1) \<and>
     expected (ps ! 0) = 5 / 100 \<and> expected (ps ! 1) = 15 / 100 \<longrightarrow>
       get_perf ideal n = Inr \<lparr>expected = 10 / 100, skip = False\<rparr>)"
proof -
  let ?cands = "candidates_of n"
  have ps: "get_perfs ideal ?cands = Inr ps"
    using assms(3) by (simp add: get_perfs_iff)
  have len: "length ps = length ?cands"
    using assms(3) by (simp add: list_all2_lengthD)
  have gen: "get_perf ideal n =
      Inr \<lparr>expected = sum_list (map (\<lambda>i. candidate_weight ideal ?cands i * expected (ps ! i))
              [0..<length ?cands]), skip = False\<rparr>"
    using get_perf_folder [OF assms(1,2), of ideal] ps
      weighted_perf_sum [OF assms(4,5) len, of ideal] by simp
  have "get_perf ideal n = Inr \<lparr>expected = 10 / 100, skip = False\<rparr>"
    if "ideal" "length ps = 2" "get_ideal (?cands ! 0) = get_ideal (?cands ! 1)"
      "expected (ps ! 0) = 5 / 100" "expected (ps ! 1) = 15 / 100"
  proof -
    have l2: "length ?cands = 2"
      using len that(2) by simp
    have "weight_basis ideal (?cands ! 0) = weight_basis ideal (?cands ! 1)"
      using that(1,3) by (simp add: weight_basis_def)
    then have w: "candidate_weight ideal ?cands 0 = 1 / 2" "candidate_weight ideal ?cands 1 = 1 / 2"
      using two_equal_weights [OF l2] by simp_all
    have upt: "[0..<length ?cands] = [0, 1]"
      unfolding l2 by (simp add: numeral_2_eq_2)
    have w1: "candidate_weight ideal ?cands (Suc 0) = 1 / 2"
      using w(2) by simp
    have e1: "expected (ps ! Suc 0) = 15 / 100"
      using that(5) by simp
    show ?thesis
      unfolding gen upt by (simp add: w(1) w1 that(4) e1)
  qed
  with gen show ?thesis by blast
qed


theorem get_perf_weighted_sum_witness:
  "get_perf True (Folder (sample_folder_fields ''f'' False None None)
      [Line (sample_line ''a'' False None 100 (5 / 100)),
       Line (sample_line ''b'' False None 100 (15 / 100))])
    = Inr \<lparr>expected = 10 / 100, skip = False\<rparr>"
proof -
  let ?a = "Line (sample_line ''a'' False None 100 (5 / 100))"
  let ?b = "Line (sample_line ''b'' False None 100 (15 / 100))"
  let ?n = "Folder (sample_folder_fields ''f'' False None None) [?a, ?b]"
  let ?ps = "[LinePerf (5 / 100), LinePerf (15 / 100)]"
  have a1: "isinstance_Folder ?n"
    by simp
  have a2: "has_perfs ?n"
    by (simp add: sample_line_def)
  have c: "candidates_of ?n = [?a, ?b]"
    by (simp add: candidates_of_def sample_line_def LinePerf_def)
  have a3: "list_all2 (\<lambda>c p. get_perf True c = Inr p) (candidates_of ?n) ?ps"
    unfolding c by (simp add: sample_line_def)
  have a4: "candidates_of ?n \<noteq> []"
    unfolding c by simp
  have a5: "\<not> list_all skip ?ps"
    by (simp add: LinePerf_def)
  have pre: "True \<and> length ?ps = 2 \<and>
      get_ideal (candidates_of ?n ! 0) = get_ideal (candidates_of ?n ! 1) \<and>
      expected (?ps ! 0) = 5 / 100 \<and> expected (?ps ! 1) = 15 / 100"
    unfolding c by (simp add: sample_line_def LinePerf_def)
  from get_perf_weighted_sum [OF a1 a2 a3 a4 a5] pre show ?thesis
    by blast
qed

section \<open>Matching a fetched line\<close>

lemma match_children_append_Line:
  "match_children fl (cs @ [Line l]) =
     (fst (match_children fl cs) @ (if matches_line fl l then [l] else []),
      snd (match_children fl cs) @ [Line l])"
proof (induction cs)
  case Nil
  then show ?case by simp
next
  case (Cons c cs)
  then show ?case
    by (cases c) (simp_all add: split_beta del: match_lines.simps)
qed

lemma length_match_children: "length (snd (match_children fl cs)) = length cs"
proof (induction cs)
  case Nil
  then show ?case by simp
next
  case (Cons c cs)
  then show ?case
    by (cases c) (simp_all add: split_beta del: match_lines.simps)
qed

text \<open>
  C2 (as stated, refuted): the generated line would appear exactly once in the returned
  list.  The loop of lines 266-270 runs over the children after the generated line has
  been added to them, so a fetched line whose \<^verbatim>\<open>matches_line\<close> accepts the line it
  generated puts that line into the list twice.
\<close>

theorem generated_line_matched_twice:
  "count_list (fst (match_lines (sample_fetch_line True)
       (sample_folder_fields ''f'' False None (Some sample_envelope)) []))
     (added_line (sample_folder_fields ''f'' False None (Some sample_envelope))
        (generate_line (sample_fetch_line True))) = 2"
  by (simp add: envelope_matches_def add_child_def added_line_def sample_fetch_line_def
      sample_folder_fields_def sample_envelope_def)

text \<open>
  C2 (amended): for a folder with an envelope and a fetched line whose account equals the
  envelope's key or name, \<^verbatim>\<open>match_lines\<close> appends exactly one new child, the generated
  line with the folder's attributes set on it, after the pre-existing children (as their
  own matching leaves them); the returned list starts with that line, goes on with the
  matches among the pre-existing children, and ends with that line once more exactly
  when \<^verbatim>\<open>matches_line\<close> accepts it.  This holds also when no pre-existing child
  matches.
\<close>

theorem match_lines_envelope:
  assumes "envelope a = Some e"
    and "account fl = envelope_key e \<or> account fl = envelope_name e"
  shows "match_lines fl a cs =
      (added_line a (generate_line fl) # fst (match_children fl cs) @
         (if matches_line fl (added_line a (generate_line fl))
          then [added_line a (generate_line fl)] else []),
       snd (match_children fl cs) @ [Line (added_line a (generate_line fl))]) \<and>
    length (snd (match_lines fl a cs)) = length cs + 1"
  using assms
  by (simp add: envelope_matches_def add_child_def added_line_def match_children_append_Line
      length_match_children)

theorem match_lines_envelope_witness:
  "match_lines (sample_fetch_line False)
       (sample_folder_fields ''f'' False None (Some sample_envelope)) [] =
     ([added_line (sample_folder_fields ''f'' False None (Some sample_envelope))
        (sample_line ''fetched'' False None 0 0)],
      [Line (added_line (sample_folder_fields ''f'' False None (Some sample_envelope))
        (sample_line ''fetched'' False None 0 0))])"
  using match_lines_envelope
    [of "sample_folder_fields ''f'' False None (Some sample_envelope)" sample_envelope
      "sample_fetch_line False" "[]"]
  by (simp add: sample_fetch_line_def sample_folder_fields_def sample_envelope_def)

section \<open>Round trip through the plain nested-map form\<close>

lemma set_attribs_defaults [simp]:
  "set_attribs AssetClass_UNKNOWN AssetSubclass_UNKNOWN None None None c = c"
  by (simp add: set_attribs_def)

lemma set_child_attribs_defaults [simp]:
  "set_child_attribs c AssetClass_UNKNOWN AssetSubclass_UNKNOWN None None None = c"
  by (induction c) (simp_all add: map_idI)

lemma FolderDisplay_of_value [simp]: "FolderDisplay_of (PInt (FolderDisplay_value d)) = Inr d"
  by (cases d) (simp_all add: FolderDisplay_of_def)

lemma and_then_Inr [simp]: "and_then (Inr v) f = f v"
  by (simp add: and_then_def)

lemma and_then_Inl [simp]: "and_then (Inl e) f = Inl e"
  by (simp add: and_then_def)



















end
